theory Spec2Isabelle
  imports Complex_Main
begin

section \<open>JavaScript numbers\<close>

text \<open>
  A JavaScript number is modelled as an exact rational, or one of the three special values
  of IEEE arithmetic that the code can produce by dividing: \<open>NaN\<close>, \<open>+Infinity\<close> and
  \<open>-Infinity\<close>. The rounding of binary floating point is not modelled: every finite
  result is the exact one. The two zeros are identified; the only divisors in the code are
  the constant 2 and sums that start from \<open>+0\<close>, which are never \<open>-0\<close>.
\<close>

datatype jsnum = Fin rat | PInf | NInf | NaN

fun jsadd :: "jsnum \<Rightarrow> jsnum \<Rightarrow> jsnum" where
  "jsadd (Fin a) (Fin b) = Fin (a + b)"
| "jsadd NaN _ = NaN"
| "jsadd _ NaN = NaN"
| "jsadd PInf NInf = NaN"
| "jsadd NInf PInf = NaN"
| "jsadd PInf _ = PInf"
| "jsadd _ PInf = PInf"
| "jsadd NInf _ = NInf"
| "jsadd _ NInf = NInf"

fun jsneg :: "jsnum \<Rightarrow> jsnum" where
  "jsneg (Fin a) = Fin (- a)"
| "jsneg PInf = NInf"
| "jsneg NInf = PInf"
| "jsneg NaN = NaN"

definition jssub :: "jsnum \<Rightarrow> jsnum \<Rightarrow> jsnum" where
  "jssub a b = jsadd a (jsneg b)"

text \<open>The sign of a product or quotient with an infinite operand.\<close>

definition signed_inf :: "bool \<Rightarrow> jsnum" where
  "signed_inf positive = (if positive then PInf else NInf)"

fun jsmul :: "jsnum \<Rightarrow> jsnum \<Rightarrow> jsnum" where
  "jsmul (Fin a) (Fin b) = Fin (a * b)"
| "jsmul NaN _ = NaN"
| "jsmul _ NaN = NaN"
| "jsmul (Fin a) PInf = (if a = 0 then NaN else signed_inf (0 < a))"
| "jsmul (Fin a) NInf = (if a = 0 then NaN else signed_inf (a < 0))"
| "jsmul PInf (Fin b) = (if b = 0 then NaN else signed_inf (0 < b))"
| "jsmul NInf (Fin b) = (if b = 0 then NaN else signed_inf (b < 0))"
| "jsmul PInf PInf = PInf"
| "jsmul NInf NInf = PInf"
| "jsmul PInf NInf = NInf"
| "jsmul NInf PInf = NInf"

text \<open>
  Division: a finite non-zero number over zero is an infinity, zero over zero is \<open>NaN\<close>.
  HOL's own division (\<open>x / 0 = 0\<close>) is used for non-zero divisors only.
\<close>

fun jsdiv :: "jsnum \<Rightarrow> jsnum \<Rightarrow> jsnum" where
  "jsdiv (Fin a) (Fin b) =
     (if b = 0 then (if a = 0 then NaN else signed_inf (0 < a)) else Fin (a / b))"
| "jsdiv NaN _ = NaN"
| "jsdiv _ NaN = NaN"
| "jsdiv (Fin a) PInf = Fin 0"
| "jsdiv (Fin a) NInf = Fin 0"
| "jsdiv PInf (Fin b) = signed_inf (0 \<le> b)"
| "jsdiv NInf (Fin b) = signed_inf (b < 0)"
| "jsdiv PInf PInf = NaN"
| "jsdiv PInf NInf = NaN"
| "jsdiv NInf PInf = NaN"
| "jsdiv NInf NInf = NaN"

text \<open>\<open>a < b\<close> on numbers: false as soon as one side is \<open>NaN\<close>.\<close>

fun jslt :: "jsnum \<Rightarrow> jsnum \<Rightarrow> bool" where
  "jslt (Fin a) (Fin b) = (a < b)"
| "jslt NaN _ = False"
| "jslt _ NaN = False"
| "jslt _ NInf = False"
| "jslt PInf _ = False"
| "jslt NInf _ = True"
| "jslt _ PInf = True"

definition isNaN :: "jsnum \<Rightarrow> bool" where
  "isNaN x = (x = NaN)"

text \<open>\<open>Math.round\<close>: the nearest integer, a tie going up.\<close>

fun math_round :: "jsnum \<Rightarrow> jsnum" where
  "math_round (Fin a) = Fin (of_int \<lfloor>a + 1 / 2\<rfloor>)"
| "math_round x = x"

text \<open>
  The number denoted by \<open>x.toFixed(2)\<close>, which is what \<open>parseFloat\<close> reads back from that
  string: \<open>x\<close> rounded to two decimals, a tie going away from zero. From \<open>10^21\<close> on,
  \<open>toFixed\<close> prints the number itself; \<open>NaN\<close> and the infinities print as themselves.
\<close>

definition round2 :: "rat \<Rightarrow> rat" where
  "round2 a =
     (if 10 ^ 21 \<le> \<bar>a\<bar> then a
      else if a < 0 then - (of_int \<lfloor>- a * 100 + 1 / 2\<rfloor> / 100)
      else of_int \<lfloor>a * 100 + 1 / 2\<rfloor> / 100)"

fun toFixed2 :: "jsnum \<Rightarrow> jsnum" where
  "toFixed2 (Fin a) = Fin (round2 a)"
| "toFixed2 x = x"

text \<open>
  Addition of numbers is a commutative monoid in this model, so that sums of lists of
  numbers (\<open>sum_list\<close>) are available; \<open>0 + x\<close> is \<open>x\<close> also for the special values.
\<close>

instantiation jsnum :: comm_monoid_add
begin

definition zero_jsnum :: jsnum where
  "zero_jsnum = Fin 0"

definition plus_jsnum :: "jsnum \<Rightarrow> jsnum \<Rightarrow> jsnum" where
  "plus_jsnum = jsadd"

instance
proof
  fix a b c :: jsnum
  show "a + b + c = a + (b + c)"
    unfolding plus_jsnum_def by (cases a; cases b; cases c) simp_all
  show "a + b = b + a"
    unfolding plus_jsnum_def by (cases a; cases b) simp_all
  show "0 + a = a"
    unfolding plus_jsnum_def zero_jsnum_def by (cases a) simp_all
qed

end

text \<open>\<open>xs.reduce((a, b) => a + b, 0)\<close>: a left fold from 0.\<close>

definition reduce_add :: "jsnum list \<Rightarrow> jsnum" where
  "reduce_add xs = foldl jsadd (Fin 0) xs"

section \<open>Truthiness of strings\<close>

text \<open>
  A string-valued property that may be missing (\<open>null\<close> or \<open>undefined\<close>) is a
  \<open>string option\<close>. Such a value is falsy when it is missing or the empty string.
\<close>

definition truthy :: "string option \<Rightarrow> bool" where
  "truthy s = (case s of None \<Rightarrow> False | Some t \<Rightarrow> t \<noteq> [])"

section \<open>The fetcher: \<open>fetchTopLanguages\<close>\<close>

text \<open>
  The shape of the upstream answer. An edge is \<open>{ size, node: { color, name } }\<close>; the
  GraphQL schema makes \<open>color\<close> nullable, and the card tests both \<open>color\<close> and \<open>name\<close> for
  presence. A repository node is a name and its edges.
\<close>

record edge =
  e_size :: jsnum
  e_color :: "string option"
  e_name :: "string option"

record repo =
  r_name :: string
  r_edges :: "edge list"

record gql_error =
  err_type :: "string option"
  err_message :: "string option"

text \<open>
  \<open>res.data.errors\<close> may be absent; \<open>res.data.data.user.repositories.nodes\<close> is absent when
  the answer carries no user.
\<close>

record response =
  errors :: "gql_error list option"
  statusText :: string
  nodes :: "repo list option"

datatype error_type = USER_NOT_FOUND | GRAPHQL_ERROR | StatusText string

datatype js_error =
    MissingParamError "string list"
  | Error string
  | CustomError string error_type
  | TypeError

text \<open>One normalized share: \<open>{ name, color, size, repo_name }\<close>.\<close>

record lang =
  name :: "string option"
  color :: "string option"
  lsize :: jsnum
  repo_name :: string

text \<open>\<open>m || d\<close> on a message.\<close>

definition or_default :: "string option \<Rightarrow> string \<Rightarrow> string" where
  "or_default m d = (if truthy m then the m else d)"

text \<open>The total of one repository: \<open>edges.map(lang => lang.size).reduce((a, b) => a + b, 0)\<close>.\<close>

definition totalSize :: "repo \<Rightarrow> jsnum" where
  "totalSize r = reduce_add (map e_size (r_edges r))"

text \<open>The callback of \<open>.map(repo => ...)\<close>: every edge over the repository's total.\<close>

definition normalize_repo :: "repo \<Rightarrow> lang list" where
  "normalize_repo r =
     map (\<lambda>l. \<lparr> name = e_name l, color = e_color l,
                lsize = jsdiv (e_size l) (totalSize r), repo_name = r_name r \<rparr>)
       (r_edges r)"

definition topLangs_of :: "repo list \<Rightarrow> lang list list" where
  "topLangs_of repoNodes = map normalize_repo (filter (\<lambda>r. length (r_edges r) \<noteq> 0) repoNodes)"

text \<open>
  \<open>fetchTopLanguages\<close>, from the answer \<open>res\<close> of the retried request on. A \<open>throw\<close> is
  \<open>Inl\<close>. The first test of \<open>res.data.errors\<close> throws a plain \<open>Error\<close>; the second test,
  kept here as the source has it, comes after it. \<open>errors[0]\<close> of an empty array is
  \<open>undefined\<close>, and reading its \<open>message\<close> is a \<open>TypeError\<close>. The parameter \<open>wrap\<close> is
  \<open>wrapTextMultiline(_, 90, 1)[0]\<close>, a helper of another module. \<open>exclude_repo\<close> only
  fills the lookup table \<open>repoToHide\<close>, which nothing reads.
\<close>

definition fetchTopLanguages ::
  "(string \<Rightarrow> string) \<Rightarrow> string \<Rightarrow> string list \<Rightarrow> response \<Rightarrow> js_error + lang list list"
where
  "fetchTopLanguages wrap username exclude_repo res =
     (if username = [] then Inl (MissingParamError [''username''])
      else if errors res \<noteq> None then
        (case the (errors res) of
           [] \<Rightarrow> Inl TypeError
         | e # _ \<Rightarrow> Inl (Error (or_default (err_message e) ''Could not fetch user'')))
      else if errors res \<noteq> None then
        (case the (errors res) of
           [] \<Rightarrow> Inl TypeError
         | e # _ \<Rightarrow>
             if err_type e = Some ''NOT_FOUND'' then
               Inl (CustomError (or_default (err_message e) ''Could not fetch user.'')
                      USER_NOT_FOUND)
             else if truthy (err_message e) then
               Inl (CustomError (wrap (the (err_message e))) (StatusText (statusText res)))
             else
               Inl (CustomError
                 ''Something went while trying to retrieve the language data using the GraphQL API.''
                 GRAPHQL_ERROR))
      else
        (case nodes res of
           None \<Rightarrow> Inl TypeError
         | Some repoNodes \<Rightarrow> Inr (topLangs_of repoNodes)))"

section \<open>The card: merging the shares\<close>

text \<open>
  The merge pass of \<open>renderTopLanguages\<close> mutates the entries of \<open>allUniqueLangs\<close> in place
  (\<open>found.size += lang.size\<close>), so objects live in a store: a list of records, an object's
  address being its index. The records of the input are the objects at the addresses
  \<open>0 ..< n\<close>, in the order the two nested \<open>forEach\<close> visit them; \<open>allUniqueLangs\<close> is a list
  of addresses; the spread \<open>{...lang}\<close> allocates a new object at the end of the store.
\<close>

type_synonym addr = nat
type_synonym store = "lang list"

text \<open>The test of \<open>find\<close>: \<open>x.color === lang.color && x.name === lang.name\<close>.\<close>

definition same_lang :: "lang \<Rightarrow> lang \<Rightarrow> bool" where
  "same_lang x l = (color x = color l \<and> name x = name l)"

text \<open>
  The body of the inner \<open>forEach\<close>, for the record at address \<open>a\<close>. The pass calls it
  with the addresses of the input only, and \<open>allUniqueLangs\<close> holds addresses it has
  allocated, so every read of the store is in range.
\<close>

definition merge_step :: "store \<times> addr list \<Rightarrow> addr \<Rightarrow> store \<times> addr list" where
  "merge_step st a =
     (case st of (s, u) \<Rightarrow>
        let l = s ! a in
        if \<not> truthy (color l) \<or> \<not> truthy (name l) then (s, u)
        else
          (case find (\<lambda>x. same_lang (s ! x) l) u of
             Some found \<Rightarrow>
               (s[found := (s ! found)\<lparr> lsize := jsadd (lsize (s ! found)) (lsize l) \<rparr>], u)
           | None \<Rightarrow> (s @ [l], u @ [length s])))"

definition merge_pass :: "lang list list \<Rightarrow> store \<times> addr list" where
  "merge_pass langs = foldl merge_step (concat langs, []) [0 ..< length (concat langs)]"

text \<open>The entries of \<open>allUniqueLangs\<close> after the pass, read from the store.\<close>

definition allUniqueLangs :: "lang list list \<Rightarrow> lang list" where
  "allUniqueLangs langs = (case merge_pass langs of (s, u) \<Rightarrow> map (\<lambda>a. s ! a) u)"

section \<open>Sorting\<close>

text \<open>
  \<open>Array.prototype.sort\<close> with a comparator is stable: an insertion sort that moves an
  element behind another only when the comparator is positive. A comparator result of
  \<open>NaN\<close> counts as 0. Where the comparator is not a consistent order (sizes that are \<open>NaN\<close>)
  the language leaves the order to the implementation; the model then still returns a
  permutation.
\<close>

fun insert_by :: "('a \<Rightarrow> 'a \<Rightarrow> jsnum) \<Rightarrow> 'a \<Rightarrow> 'a list \<Rightarrow> 'a list" where
  "insert_by cmp x [] = [x]"
| "insert_by cmp x (y # ys) =
     (if jslt (Fin 0) (cmp x y) then y # insert_by cmp x ys else x # y # ys)"

fun sort_by :: "('a \<Rightarrow> 'a \<Rightarrow> jsnum) \<Rightarrow> 'a list \<Rightarrow> 'a list" where
  "sort_by cmp [] = []"
| "sort_by cmp (x # xs) = insert_by cmp x (sort_by cmp xs)"

text \<open>The comparator \<open>(a, b) => b.size - a.size\<close>.\<close>

definition by_size_desc :: "lang \<Rightarrow> lang \<Rightarrow> jsnum" where
  "by_size_desc a b = jssub (lsize b) (lsize a)"

section \<open>The card: heights\<close>

definition calculateCompactLayoutHeight :: "jsnum \<Rightarrow> jsnum" where
  "calculateCompactLayoutHeight totalLangs =
     jsadd (Fin 90) (jsmul (math_round (jsdiv totalLangs (Fin 2))) (Fin 19))"

definition calculateNormalLayoutHeight :: "jsnum \<Rightarrow> jsnum" where
  "calculateNormalLayoutHeight totalLangs =
     jsadd (Fin 45) (jsmul (jsadd totalLangs (Fin 1)) (Fin 40))"

text \<open>The \<open>length\<close> of an array, as a number.\<close>

definition js_length :: "'a list \<Rightarrow> jsnum" where
  "js_length xs = Fin (of_nat (length xs))"

section \<open>The card: \<open>useLanguages\<close>\<close>

text \<open>
  \<open>parseInt\<close> of a string, without a radix: white space is skipped, then a sign, then
  \<open>0x\<close> selects radix 16; the digits that follow are read, and none gives \<open>NaN\<close>.
  Characters are ASCII here.
\<close>

definition is_space :: "char \<Rightarrow> bool" where
  "is_space c = (of_char c \<in> set [9, 10, 11, 12, 13, 32 :: nat])"

definition digit_val :: "char \<Rightarrow> nat option" where
  "digit_val c =
     (let n = of_char c :: nat in
      if 48 \<le> n \<and> n \<le> 57 then Some (n - 48)
      else if 97 \<le> n \<and> n \<le> 122 then Some (n - 87)
      else if 65 \<le> n \<and> n \<le> 90 then Some (n - 55)
      else None)"

fun take_digits :: "nat \<Rightarrow> string \<Rightarrow> nat list" where
  "take_digits R [] = []"
| "take_digits R (c # cs) =
     (case digit_val c of
        None \<Rightarrow> []
      | Some d \<Rightarrow> if d < R then d # take_digits R cs else [])"

definition parseInt :: "string \<Rightarrow> jsnum" where
  "parseInt str =
     (let s1 = dropWhile is_space str;
          neg = (case s1 of c # _ \<Rightarrow> c = CHR ''-'' | [] \<Rightarrow> False);
          s2 = (case s1 of c # cs \<Rightarrow> if c = CHR ''-'' \<or> c = CHR ''+'' then cs else s1 | [] \<Rightarrow> s1);
          hex = (case s2 of a # b # _ \<Rightarrow> a = CHR ''0'' \<and> (b = CHR ''x'' \<or> b = CHR ''X'') | _ \<Rightarrow> False);
          R = (if hex then 16 else 10);
          ds = take_digits R (if hex then drop 2 s2 else s2);
          n = foldl (\<lambda>acc d. acc * R + d) 0 ds
      in if ds = [] then NaN else Fin (if neg then - of_nat n else of_nat n))"

text \<open>\<open>Math.min\<close> and \<open>Math.max\<close> of two numbers.\<close>

definition math_min :: "jsnum \<Rightarrow> jsnum \<Rightarrow> jsnum" where
  "math_min a b = (if a = NaN \<or> b = NaN then NaN else if jslt a b then a else b)"

definition math_max :: "jsnum \<Rightarrow> jsnum \<Rightarrow> jsnum" where
  "math_max a b = (if a = NaN \<or> b = NaN then NaN else if jslt a b then b else a)"

text \<open>
  Modelled from the spec: \<open>clampValue\<close>, imported from \<open>../common/utils.js\<close>, is not among
  the sources. The spec has a helper that clamps a value to a range, and the count
  "clamped to [1, 10] regardless of requested value": a number is brought into the range,
  and a value that is not a number gives the lower bound.
\<close>

definition clampValue :: "jsnum \<Rightarrow> jsnum \<Rightarrow> jsnum \<Rightarrow> jsnum" where
  "clampValue number lo hi = (if isNaN number then lo else math_max lo (math_min number hi))"

text \<open>
  Modelled from the spec: \<open>lowercaseTrim\<close>, imported from \<open>../common/utils.js\<close>, is not among
  the sources. The spec matches names "case-insensitively and whitespace-trimmed": the
  name in lower case, without the white space at its two ends.
\<close>

definition to_lower :: "char \<Rightarrow> char" where
  "to_lower c =
     (let n = of_char c :: nat in if 65 \<le> n \<and> n \<le> 90 then char_of (n + 32) else c)"

definition lowercaseTrim :: "string \<Rightarrow> string" where
  "lowercaseTrim s = rev (dropWhile is_space (rev (dropWhile is_space (map to_lower s))))"

text \<open>
  The lookup table \<open>langsToHide\<close> is the object literal \<open>{}\<close> with one property set to \<open>true\<close>
  for each entry of \<open>hide\<close>. Reading \<open>langsToHide[k]\<close> also finds what an object inherits
  from \<open>Object.prototype\<close>: for these keys the value read is a function or an object,
  which is truthy. (\<open>hide\<close> may be \<open>undefined\<close>: then nothing is set.)
\<close>

definition object_prototype_keys :: "string list" where
  "object_prototype_keys =
     [''constructor'', ''__proto__'', ''hasOwnProperty'', ''isPrototypeOf'',
      ''propertyIsEnumerable'', ''toLocaleString'', ''toString'', ''valueOf'',
      ''__defineGetter__'', ''__defineSetter__'', ''__lookupGetter__'', ''__lookupSetter__'']"

definition own_keys :: "string list option \<Rightarrow> string list" where
  "own_keys hide = (case hide of None \<Rightarrow> [] | Some h \<Rightarrow> map lowercaseTrim h)"

definition langsToHide :: "string list option \<Rightarrow> string \<Rightarrow> bool" where
  "langsToHide hide k = (k \<in> set (own_keys hide) \<or> k \<in> set object_prototype_keys)"

text \<open>
  \<open>xs.slice(0, e)\<close>: \<open>e\<close> is truncated to an integer (\<open>NaN\<close> is 0); a negative end counts
  from the end of the array.
\<close>

definition slice0 :: "'a list \<Rightarrow> jsnum \<Rightarrow> 'a list" where
  "slice0 xs e =
     (let len = int (length xs);
          k = (case e of
                 NaN \<Rightarrow> 0
               | PInf \<Rightarrow> len
               | NInf \<Rightarrow> 0
               | Fin q \<Rightarrow>
                   (let i = (if q < 0 then - \<lfloor>- q\<rfloor> else \<lfloor>q\<rfloor>)
                    in if i < 0 then max (len + i) 0 else min i len))
      in take (nat k) xs)"

text \<open>
  \<open>useLanguages\<close> is declared on a \<open>Record<string, Lang>\<close>, a \<open>Lang\<close> being
  \<open>{ name, color, size }\<close> with a name that is a string. The record is the list of its
  entries in the order \<open>Object.values\<close> enumerates them.
\<close>

record Lang =
  Lang_name :: string
  Lang_color :: "string option"
  Lang_size :: jsnum

record selection =
  langs :: "Lang list"
  totalLanguageSize :: jsnum

definition Object_values :: "(string \<times> 'a) list \<Rightarrow> 'a list" where
  "Object_values obj = map snd obj"

definition useLanguages ::
  "(string \<times> Lang) list \<Rightarrow> string list option \<Rightarrow> string \<Rightarrow> selection"
where
  "useLanguages topLangs hide langs_count =
     (let langsCount = clampValue (parseInt langs_count) (Fin 1) (Fin 10);
          ls = slice0
                 (filter (\<lambda>l. \<not> langsToHide hide (lowercaseTrim (Lang_name l)))
                    (sort_by (\<lambda>a b. jssub (Lang_size b) (Lang_size a)) (Object_values topLangs)))
                 langsCount
      in \<lparr> langs = ls, totalLanguageSize = foldl (\<lambda>acc curr. jsadd acc (Lang_size curr)) (Fin 0) ls \<rparr>)"

section \<open>The card: markup\<close>

text \<open>
  Markup is a string. The text of a template literal is kept, without the line breaks and
  indentation between its tags. What lies outside this file is a parameter, collected in
  the record \<open>env\<close>: the text of a number in a template (\<open>show_num\<close>) and of
  \<open>x.toFixed(2)\<close> (\<open>show_fixed2\<close>), and the helpers of other modules \<open>flexLayout\<close>
  (items, gap, direction), \<open>measureText\<close>, the translation \<open>i18n.t\<close> for a locale,
  \<open>getCardColors\<close> with the field \<open>textColor\<close> of its result, and \<open>Card.render\<close>.
\<close>

record color_options =
  co_title_color :: "string option"
  co_text_color :: "string option"
  co_bg_color :: "string option"
  co_border_color :: "string option"
  co_theme :: "string option"

record 'c card =
  c_customTitle :: "string option"
  c_defaultTitle :: string
  c_width :: jsnum
  c_height :: jsnum
  c_border_radius :: "jsnum option"
  c_colors :: 'c
  c_animations :: bool
  c_hideBorder :: "bool option"
  c_hideTitle :: bool
  c_css :: string

record 'c env =
  show_num :: "jsnum \<Rightarrow> string"
  show_fixed2 :: "jsnum \<Rightarrow> string"
  flexLayout :: "string list \<Rightarrow> jsnum \<Rightarrow> string option \<Rightarrow> string list"
  measureText :: "string \<Rightarrow> jsnum \<Rightarrow> jsnum"
  i18n_t :: "string option \<Rightarrow> string \<Rightarrow> string"
  getCardColors :: "color_options \<Rightarrow> 'c"
  textColor :: "'c \<Rightarrow> string"
  render :: "'c card \<Rightarrow> string \<Rightarrow> string"

text \<open>An attribute \<open>k="v"\<close>, and \<open>k='v'\<close>, with a blank before it.\<close>

definition attr :: "string \<Rightarrow> string \<Rightarrow> string" where
  "attr k v = '' '' @ k @ ''='' @ [CHR 0x22] @ v @ [CHR 0x22]"

definition attr1 :: "string \<Rightarrow> string \<Rightarrow> string" where
  "attr1 k v = '' '' @ k @ ''='' @ [CHR 0x27] @ v @ [CHR 0x27]"

text \<open>A property that may be missing, in a template literal.\<close>

definition interp :: "string option \<Rightarrow> string" where
  "interp s = (case s of None \<Rightarrow> ''undefined'' | Some t \<Rightarrow> t)"

text \<open>\<open>xs.join(sep)\<close>.\<close>

fun join :: "string \<Rightarrow> string list \<Rightarrow> string" where
  "join sep [] = []"
| "join sep [x] = x"
| "join sep (x # y # ys) = x @ sep @ join sep (y # ys)"

subsection \<open>The compact layout\<close>

text \<open>
  One segment of the strip: its offset \<open>x\<close>, its rendered \<open>width\<close> (\<open>progress\<close>), and the
  width before the boost (\<open>percentage\<close>). The callback of \<open>langs.map\<close> reads and advances
  the variable \<open>progressOffset\<close>, which is an argument here.
\<close>

record segment =
  seg_x :: jsnum
  seg_progress :: jsnum
  seg_percentage :: jsnum
  seg_lang :: lang

fun compactProgressBar :: "jsnum \<Rightarrow> jsnum \<Rightarrow> lang list \<Rightarrow> segment list" where
  "compactProgressBar offsetWidth progressOffset [] = []"
| "compactProgressBar offsetWidth progressOffset (l # ls) =
     (let percentage = toFixed2 (jsmul (lsize l) offsetWidth);
          progress = (if jslt percentage (Fin 10) then jsadd percentage (Fin 10) else percentage)
      in \<lparr> seg_x = progressOffset, seg_progress = progress,
            seg_percentage = percentage, seg_lang = l \<rparr>
         # compactProgressBar offsetWidth (jsadd progressOffset percentage) ls)"

definition segment_markup :: "'c env \<Rightarrow> string \<Rightarrow> segment \<Rightarrow> string" where
  "segment_markup E username g =
     ''<a'' @ attr ''href'' (''https://github.com/'' @ username @ ''/'' @ repo_name (seg_lang g))
     @ ''><rect'' @ attr ''mask'' ''url(#rect-mask)'' @ attr ''data-testid'' ''lang-progress''
     @ attr ''x'' (show_num E (seg_x g)) @ attr ''y'' ''0''
     @ attr ''width'' (show_num E (seg_progress g)) @ attr ''height'' ''8''
     @ attr ''fill'' (or_default (color (seg_lang g)) ''#858585'') @ ''/></a>''"

definition renderCompactLayout :: "'c env \<Rightarrow> lang list \<Rightarrow> jsnum \<Rightarrow> string \<Rightarrow> string" where
  "renderCompactLayout E ls width username =
     ''<mask'' @ attr ''id'' ''rect-mask'' @ ''><rect'' @ attr ''x'' ''0'' @ attr ''y'' ''0''
     @ attr ''width'' (show_num E width) @ attr ''height'' ''8'' @ attr ''fill'' ''white''
     @ attr ''rx'' ''5'' @ ''/></mask>''
     @ concat (map (segment_markup E username) (compactProgressBar width (Fin 0) ls))"

subsection \<open>The legend\<close>

text \<open>
  \<open>getLongestLang\<close> folds from \<open>{ name: "", size: null, color: "" }\<close> and keeps the first
  language of the greatest name length; only the name and the size of its result are
  read. \<open>lang.name.length\<close> of a missing name is a \<open>TypeError\<close>. Lengths count characters.
\<close>

definition getLongestLang :: "lang list \<Rightarrow> js_error + string \<times> jsnum option" where
  "getLongestLang arr =
     foldl
       (\<lambda>saved l.
          case saved of
            Inl e \<Rightarrow> Inl e
          | Inr (n, sz) \<Rightarrow>
              (case name l of
                 None \<Rightarrow> Inl TypeError
               | Some m \<Rightarrow> if length n < length m then Inr (m, Some (lsize l)) else Inr (n, sz)))
       (Inr ([], None)) arr"

text \<open>A size in a product: \<open>null\<close> is 0.\<close>

definition to_number :: "jsnum option \<Rightarrow> jsnum" where
  "to_number v = (case v of None \<Rightarrow> Fin 0 | Some x \<Rightarrow> x)"

definition createCompactLangNode :: "lang \<Rightarrow> string" where
  "createCompactLangNode l =
     ''<g><circle'' @ attr ''cx'' ''5'' @ attr ''cy'' ''6'' @ attr ''r'' ''5''
     @ attr ''fill'' (or_default (color l) ''#858585'') @ ''/><text''
     @ attr ''data-testid'' ''lang-name'' @ attr ''x'' ''15'' @ attr ''y'' ''10''
     @ attr1 ''class'' ''lang-name'' @ ''>'' @ interp (name l) @ ''</text></g>''"

text \<open>
  \<open>createLanguageTextNode\<close>. The result of \<open>chunkArray(langs, langs.length / 2)\<close> is
  never read, and is left out.
\<close>

definition createLanguageTextNode :: "'c env \<Rightarrow> lang list \<Rightarrow> js_error + string" where
  "createLanguageTextNode E ls =
     (case getLongestLang ls of
        Inl e \<Rightarrow> Inl e
      | Inr (longest_name, longest_size) \<Rightarrow>
          let items = map createCompactLangNode ls;
              layout = concat (flexLayout E items (Fin 25) (Some ''column''));
              percent = show_fixed2 E (jsmul (to_number longest_size) (Fin 100));
              minGap = Fin 150;
              maxGap = jsadd (Fin 20)
                         (measureText E (longest_name @ '' '' @ percent @ ''%'') (Fin 11))
          in Inr (concat (flexLayout E [layout]
                            (if jslt maxGap minGap then minGap else maxGap) None)))"

subsection \<open>\<open>renderTopLanguages\<close>\<close>

text \<open>
  The options. A field that is not given is \<open>None\<close> (\<open>undefined\<close>). \<open>langs_count\<close> arrives
  as the text of a query parameter; its default is the number 5.
\<close>

datatype count_value = CountNumber jsnum | CountText string

record options =
  hide_title :: "bool option"
  hide_border :: "bool option"
  card_width :: "jsnum option"
  title_color :: "string option"
  text_color :: "string option"
  bg_color :: "string option"
  hide :: "string list option"
  theme :: "string option"
  layout :: "string option"
  custom_title :: "string option"
  locale_id :: "string option"
  langs_count :: "count_value option"
  border_radius :: "jsnum option"
  border_color :: "string option"

text \<open>
  \<open>isNaN(card_width) ? DEFAULT_CARD_WIDTH : card_width < MIN_CARD_WIDTH ? MIN_CARD_WIDTH :
  card_width\<close>; \<open>isNaN(undefined)\<close> is true.
\<close>

definition bar_width_of :: "jsnum option \<Rightarrow> jsnum" where
  "bar_width_of cw =
     (case cw of
        None \<Rightarrow> Fin 300
      | Some w \<Rightarrow> if isNaN w then Fin 300 else if jslt w (Fin 230) then Fin 230 else w)"

text \<open>One strip of the body, \<open>idx\<close> being its index among the repositories.\<close>

definition strip_markup :: "'c env \<Rightarrow> jsnum \<Rightarrow> string \<times> nat \<Rightarrow> string" where
  "strip_markup E bar_width p =
     (case p of (lay, idx) \<Rightarrow>
        ''<svg'' @ attr ''data-testid'' ''lang-items'' @ attr ''x'' (show_num E (Fin 25))
        @ attr ''y'' (show_num E (jsmul (Fin (of_nat idx)) (Fin 10)))
        @ attr ''width'' (show_num E bar_width) @ attr ''height'' ''8'' @ ''>'' @ lay
        @ ''</svg> '')"

text \<open>
  The card as it stands when \<open>card.render(body)\<close> is called, with the body. Of the options,
  \<open>hide\<close>, \<open>layout\<close> and \<open>langs_count\<close> are taken out of the object and not read again (the
  \<open>layout\<close> of the last \<open>map\<close> is the parameter of its callback).
\<close>

definition topLanguagesCard ::
  "'c env \<Rightarrow> lang list list \<Rightarrow> string \<Rightarrow> options \<Rightarrow> js_error + 'c card \<times> string"
where
  "topLanguagesCard E topLangs username opts =
     (let bar_width = bar_width_of (card_width opts);
          height = calculateCompactLayoutHeight (js_length topLangs);
          merged = sort_by by_size_desc (allUniqueLangs topLangs)
      in case createLanguageTextNode E merged of
           Inl e \<Rightarrow> Inl e
         | Inr legend \<Rightarrow>
             let layouts = map (\<lambda>l. renderCompactLayout E l bar_width username) topLangs;
                 colors = getCardColors E
                   \<lparr> co_title_color = title_color opts, co_text_color = text_color opts,
                     co_bg_color = bg_color opts, co_border_color = border_color opts,
                     co_theme = theme opts \<rparr>;
                 body = join [CHR 0x0A]
                          (map (strip_markup E bar_width) (zip layouts [0 ..< length layouts]))
                        @ ''<svg'' @ attr ''data-testid'' ''lang-items''
                        @ attr ''x'' (show_num E (jsadd (jsadd (Fin 25) (Fin 300)) (Fin 20)))
                        @ ''>'' @ legend @ ''</svg> ''
             in Inr (\<lparr> c_customTitle = custom_title opts,
                        c_defaultTitle = i18n_t E (locale_id opts) ''langcard.title'',
                        c_width = Fin 480,
                        c_height = height,
                        c_border_radius = border_radius opts,
                        c_colors = colors,
                        c_animations = False,
                        c_hideBorder = hide_border opts,
                        c_hideTitle = (case hide_title opts of None \<Rightarrow> False | Some b \<Rightarrow> b),
                        c_css = ''.lang-name { font: 400 11px 'Segoe UI', Ubuntu, Sans-Serif; fill: ''
                                @ textColor E colors @ '' }'' \<rparr>, body))"

definition renderTopLanguages ::
  "'c env \<Rightarrow> lang list list \<Rightarrow> string \<Rightarrow> options \<Rightarrow> js_error + string"
where
  "renderTopLanguages E topLangs username opts =
     (case topLanguagesCard E topLangs username opts of
        Inl e \<Rightarrow> Inl e
      | Inr (c, body) \<Rightarrow> Inr (render E c body))"

section \<open>The merge on values\<close>

text \<open>
  The merge as the spec words it, on a list of entries instead of a store: records with a
  missing \<open>color\<close> or \<open>name\<close> are skipped; an entry with the same name and color has the
  share added to its size; otherwise the record becomes a new entry at the end.
\<close>

definition key :: "lang \<Rightarrow> string option \<times> string option" where
  "key l = (name l, color l)"

definition valid :: "lang \<Rightarrow> bool" where
  "valid l = (truthy (color l) \<and> truthy (name l))"

fun add_share :: "lang \<Rightarrow> lang list \<Rightarrow> lang list" where
  "add_share r [] = [r]"
| "add_share r (x # xs) =
     (if same_lang x r then x\<lparr> lsize := jsadd (lsize x) (lsize r) \<rparr> # xs
      else x # add_share r xs)"

definition aggregate_step :: "lang list \<Rightarrow> lang \<Rightarrow> lang list" where
  "aggregate_step acc r = (if valid r then add_share r acc else acc)"

definition aggregate :: "lang list \<Rightarrow> lang list" where
  "aggregate recs = foldl aggregate_step [] recs"

text \<open>The size accumulated for a pair of name and color, if it has an entry.\<close>

definition accumulated_size :: "string option \<times> string option \<Rightarrow> lang list \<Rightarrow> jsnum option" where
  "accumulated_size k ents = map_option lsize (find (\<lambda>e. key e = k) ents)"

text \<open>The shares that the records with a name and a color contribute to a pair.\<close>

definition shares :: "string option \<times> string option \<Rightarrow> lang list \<Rightarrow> jsnum list" where
  "shares k recs = map lsize (filter (\<lambda>r. valid r \<and> key r = k) recs)"

section \<open>Example inputs\<close>

text \<open>The two repositories of the spec's scenario, and one whose only language has no bytes.\<close>

definition alpha :: repo where
  "alpha = \<lparr> r_name = ''alpha'',
     r_edges = [\<lparr> e_size = Fin 80, e_color = Some ''#f1e05a'', e_name = Some ''JS'' \<rparr>,
                \<lparr> e_size = Fin 20, e_color = Some ''#2b7489'', e_name = Some ''TS'' \<rparr>] \<rparr>"

definition beta :: repo where
  "beta = \<lparr> r_name = ''beta'',
     r_edges = [\<lparr> e_size = Fin 50, e_color = Some ''#2b7489'', e_name = Some ''TS'' \<rparr>,
                \<lparr> e_size = Fin 50, e_color = Some ''#00ADD8'', e_name = Some ''Go'' \<rparr>] \<rparr>"

definition empty_files :: repo where
  "empty_files = \<lparr> r_name = ''empty-files'',
     r_edges = [\<lparr> e_size = Fin 0, e_color = Some ''#3572A5'', e_name = Some ''Python'' \<rparr>] \<rparr>"

text \<open>A third repository: TypeScript under another color, and a language without a color.\<close>

definition gamma :: repo where
  "gamma = \<lparr> r_name = ''gamma'',
     r_edges = [\<lparr> e_size = Fin 30, e_color = Some ''#3178c6'', e_name = Some ''TS'' \<rparr>,
                \<lparr> e_size = Fin 10, e_color = None, e_name = Some ''Text'' \<rparr>] \<rparr>"

definition scenario :: "lang list list" where
  "scenario = topLangs_of [alpha, beta, gamma]"

text \<open>
  Two records of languages for \<open>useLanguages\<close>: the languages of the spec's scenario, and
  one with a language named like a property that every object inherits.
\<close>

definition ranked :: "(string \<times> Lang) list" where
  "ranked =
     [(''Go'', \<lparr> Lang_name = ''Go'', Lang_color = Some ''#00ADD8'', Lang_size = Fin (1 / 2) \<rparr>),
      (''JS'', \<lparr> Lang_name = ''JS'', Lang_color = Some ''#f1e05a'', Lang_size = Fin (4 / 5) \<rparr>),
      (''TS'', \<lparr> Lang_name = ''TS'', Lang_color = Some ''#2b7489'', Lang_size = Fin (7 / 10) \<rparr>)]"

definition with_constructor :: "(string \<times> Lang) list" where
  "with_constructor =
     [(''Go'', \<lparr> Lang_name = ''Go'', Lang_color = Some ''#00ADD8'', Lang_size = Fin 3 \<rparr>),
      (''constructor'', \<lparr> Lang_name = ''constructor'', Lang_color = Some ''#888888'', Lang_size = Fin 2 \<rparr>)]"

text \<open>The shares of a repository with three languages of one size.\<close>

definition thirds :: "lang list" where
  "thirds =
     [\<lparr> name = Some ''C'', color = Some ''#555555'', lsize = Fin (1 / 3), repo_name = ''delta'' \<rparr>,
      \<lparr> name = Some ''Go'', color = Some ''#00ADD8'', lsize = Fin (1 / 3), repo_name = ''delta'' \<rparr>,
      \<lparr> name = Some ''JS'', color = Some ''#f1e05a'', lsize = Fin (1 / 3), repo_name = ''delta'' \<rparr>]"

section \<open>Properties of the fetcher\<close>

lemma reduce_add_sum_list: "reduce_add xs = sum_list xs"
proof -
  have "foldl jsadd a xs = a + sum_list xs" for a
    by (induction xs arbitrary: a) (simp_all add: plus_jsnum_def[symmetric] add.assoc)
  then show ?thesis by (simp add: reduce_add_def zero_jsnum_def[symmetric])
qed

lemma jsadd_Fin_D: "jsadd x y = Fin t \<Longrightarrow> \<exists>a b. x = Fin a \<and> y = Fin b \<and> t = a + b"
  by (cases x; cases y) simp_all

lemma sum_list_Fin_D:
  "sum_list xs = Fin t \<Longrightarrow> \<exists>qs. xs = map Fin qs \<and> t = sum_list qs"
proof (induction xs arbitrary: t)
  case Nil
  then show ?case by (simp add: zero_jsnum_def)
next
  case (Cons x xs)
  from Cons.prems have "jsadd x (sum_list xs) = Fin t" by (simp add: plus_jsnum_def)
  then obtain a b where x: "x = Fin a" and s: "sum_list xs = Fin b" and t: "t = a + b"
    using jsadd_Fin_D by blast
  from Cons.IH[OF s] obtain qs where "xs = map Fin qs" "b = sum_list qs" by blast
  with x t have "x # xs = map Fin (a # qs) \<and> t = sum_list (a # qs)" by simp
  then show ?case by (rule exI[of _ "a # qs"])
qed

lemma sum_list_map_Fin: "sum_list (map Fin qs) = Fin (sum_list qs)"
  by (induction qs) (simp_all add: zero_jsnum_def plus_jsnum_def)

lemma sum_list_divide_const: "sum_list (map (\<lambda>q. q / t) qs) = sum_list qs / (t::rat)"
  by (induction qs) (simp_all add: add_divide_distrib)

text \<open>
  Claim C7. For a repository with a non-empty language list and a positive total byte
  size, the shares that \<open>fetchTopLanguages\<close> computes for it (each size over the
  repository's total) sum to exactly 1, numbers being exact.
\<close>

theorem normalize_shares_sum_to_one:
  assumes "r_edges r \<noteq> []" and "totalSize r = Fin t" and "0 < t"
  shows "reduce_add (map lsize (normalize_repo r)) = Fin 1"
proof -
  from assms(2) have "sum_list (map e_size (r_edges r)) = Fin t"
    by (simp add: totalSize_def reduce_add_sum_list)
  then obtain qs where qs: "map e_size (r_edges r) = map Fin qs" and t: "t = sum_list qs"
    using sum_list_Fin_D by blast
  have "map lsize (normalize_repo r) = map (\<lambda>x. jsdiv x (Fin t)) (map e_size (r_edges r))"
    by (simp add: normalize_repo_def assms(2) comp_def)
  also have "\<dots> = map Fin (map (\<lambda>q. q / t) qs)"
    using assms(3) by (simp add: qs comp_def)
  finally have "reduce_add (map lsize (normalize_repo r)) = Fin (sum_list qs / t)"
    by (simp only: reduce_add_sum_list sum_list_map_Fin sum_list_divide_const)
  with t assms(3) show ?thesis by simp
qed

theorem normalize_shares_sum_to_one_witness:
  "r_edges alpha \<noteq> [] \<and> totalSize alpha = Fin 100 \<and> (0::rat) < 100
   \<and> map lsize (normalize_repo alpha) = [Fin (4 / 5), Fin (1 / 5)]
   \<and> reduce_add (map lsize (normalize_repo alpha)) = Fin 1"
proof -
  have e: "r_edges alpha \<noteq> []" by (simp add: alpha_def)
  have t: "totalSize alpha = Fin 100" by (simp add: alpha_def totalSize_def reduce_add_def)
  have s: "map lsize (normalize_repo alpha) = [Fin (4 / 5), Fin (1 / 5)]"
    by (simp add: normalize_repo_def t) (simp add: alpha_def)
  from normalize_shares_sum_to_one[OF e t] e t s show ?thesis by simp
qed

text \<open>
  Claim C1 says that a repository with a non-empty language list and a total of zero
  bytes gets the share 0 for each of its languages, never \<open>NaN\<close>, so that nothing
  downstream is poisoned. The code divides by the total without a test: for the
  repository \<open>empty_files\<close> the share is \<open>0 / 0\<close>, which is \<open>NaN\<close>; \<open>fetchTopLanguages\<close>
  returns it, and the segment drawn for it has the width \<open>NaN\<close>.
\<close>

theorem zero_total_share_is_NaN:
  "fetchTopLanguages id ''octocat'' []
     \<lparr> errors = None, statusText = ''OK'', nodes = Some [empty_files] \<rparr>
   = Inr [[\<lparr> name = Some ''Python'', color = Some ''#3572A5'', lsize = NaN,
            repo_name = ''empty-files'' \<rparr>]]
   \<and> map seg_progress (compactProgressBar (Fin 300) (Fin 0) (normalize_repo empty_files)) = [NaN]"
  by (simp add: fetchTopLanguages_def topLangs_of_def normalize_repo_def totalSize_def
      reduce_add_def empty_files_def Let_def)

text \<open>Whenever the sizes of a non-empty language list are all zero, every share is \<open>NaN\<close>.\<close>

lemma zero_sizes_all_NaN:
  "\<forall>e\<in>set (r_edges r). e_size e = Fin 0 \<Longrightarrow> \<forall>l\<in>set (normalize_repo r). lsize l = NaN"
proof -
  assume z: "\<forall>e\<in>set (r_edges r). e_size e = Fin 0"
  have "\<forall>x\<in>set xs. x = (0::jsnum) \<Longrightarrow> sum_list xs = 0" for xs
    by (induction xs) simp_all
  from this[of "map e_size (r_edges r)"] z have "totalSize r = Fin 0"
    by (simp add: totalSize_def reduce_add_sum_list zero_jsnum_def)
  with z show ?thesis by (simp add: normalize_repo_def)
qed

text \<open>
  Claim C2 says that an answer reporting a \<open>NOT_FOUND\<close> error makes \<open>fetchTopLanguages\<close>
  raise the typed "user not found" condition. The code throws at its first test of
  \<open>res.data.errors\<close>, a plain \<open>Error\<close> carrying the message; the test that builds the
  \<open>CustomError\<close> of type \<open>USER_NOT_FOUND\<close> comes after it and is never reached.
\<close>

theorem not_found_throws_plain_error:
  "fetchTopLanguages id ''ghost'' []
     \<lparr> errors = Some [\<lparr> err_type = Some ''NOT_FOUND'',
                         err_message = Some ''Could not resolve to a User with the login of ghost.'' \<rparr>],
       statusText = ''OK'', nodes = None \<rparr>
   = Inl (Error ''Could not resolve to a User with the login of ghost.'')"
  by (simp add: fetchTopLanguages_def or_default_def truthy_def)

text \<open>No answer at all makes the code throw a \<open>CustomError\<close>, and an error payload is never aggregated.\<close>

lemma fetchTopLanguages_never_CustomError:
  "fetchTopLanguages wrap username exclude_repo res \<noteq> Inl (CustomError m ty)"
  by (simp add: fetchTopLanguages_def split: list.splits option.splits)

lemma fetchTopLanguages_errors_throw:
  "errors res \<noteq> None \<Longrightarrow> \<exists>e. fetchTopLanguages wrap username exclude_repo res = Inl e"
  by (auto simp: fetchTopLanguages_def split: list.splits)

section \<open>Properties of the merge pass\<close>

text \<open>The pass on the store does what the merge on values does, one record at a time.\<close>

lemma add_share_append: "\<forall>x\<in>set E. \<not> same_lang x r \<Longrightarrow> add_share r E = E @ [r]"
  by (induction E) simp_all

lemma add_share_update:
  "i < length E \<Longrightarrow> same_lang (E ! i) r \<Longrightarrow> \<forall>j<i. \<not> same_lang (E ! j) r
   \<Longrightarrow> add_share r E = E[i := (E ! i)\<lparr> lsize := jsadd (lsize (E ! i)) (lsize r) \<rparr>]"
proof (induction E arbitrary: i)
  case Nil
  then show ?case by simp
next
  case (Cons x E)
  show ?case
  proof (cases i)
    case 0
    with Cons.prems show ?thesis by simp
  next
    case (Suc k)
    with Cons.prems have nx: "\<not> same_lang x r" by auto
    from Suc Cons.prems have "k < length E" "same_lang (E ! k) r" "\<forall>j<k. \<not> same_lang (E ! j) r"
      by auto
    from Cons.IH[OF this] nx Suc show ?thesis by simp
  qed
qed

lemma merge_step_refines:
  assumes a: "a < length recs"
  shows "merge_step (recs @ E, [length recs ..< length recs + length E]) a
       = (recs @ aggregate_step E (recs ! a),
          [length recs ..< length recs + length (aggregate_step E (recs ! a))])"
proof -
  let ?n = "length recs"
  let ?s = "recs @ E"
  let ?u = "[?n ..< ?n + length E]"
  let ?l = "recs ! a"
  have la: "?s ! a = ?l" using a by (simp add: nth_append)
  show ?thesis
  proof (cases "valid ?l")
    case False
    then show ?thesis by (auto simp: merge_step_def la aggregate_step_def valid_def Let_def)
  next
    case True
    then have t: "truthy (color ?l)" "truthy (name ?l)" by (simp_all add: valid_def)
    show ?thesis
    proof (cases "find (\<lambda>x. same_lang (?s ! x) ?l) ?u")
      case None
      then have "\<forall>x\<in>set ?u. \<not> same_lang (?s ! x) ?l" by (simp add: find_None_iff)
      then have no: "\<forall>x\<in>set E. \<not> same_lang x ?l"
      proof -
        assume h: "\<forall>x\<in>set ?u. \<not> same_lang (?s ! x) ?l"
        show ?thesis
        proof
          fix x assume "x \<in> set E"
          then obtain j where j: "j < length E" "E ! j = x" by (auto simp: in_set_conv_nth)
          then have "?n + j \<in> set ?u" by simp
          with h have "\<not> same_lang (?s ! (?n + j)) ?l" by blast
          with j show "\<not> same_lang x ?l" by (simp add: nth_append)
        qed
      qed
      have "aggregate_step E ?l = E @ [?l]"
        using True no by (simp add: aggregate_step_def add_share_append)
      with None t show ?thesis
        by (simp add: merge_step_def la Let_def)
    next
      case (Some f)
      then obtain i where i: "i < length ?u" "same_lang (?s ! (?u ! i)) ?l" "f = ?u ! i"
        "\<forall>j<i. \<not> same_lang (?s ! (?u ! j)) ?l"
        by (auto simp: find_Some_iff)
      then have il: "i < length E" by simp
      have f: "f = ?n + i" using i il by simp
      have 1: "same_lang (E ! i) ?l" using i il by (simp add: nth_append)
      have 2: "\<forall>j<i. \<not> same_lang (E ! j) ?l"
      proof (intro allI impI)
        fix j assume "j < i"
        with i(4) il have "\<not> same_lang (?s ! (?u ! j)) ?l" by blast
        with \<open>j < i\<close> il show "\<not> same_lang (E ! j) ?l" by (simp add: nth_append)
      qed
      have agg: "aggregate_step E ?l = E[i := (E ! i)\<lparr> lsize := jsadd (lsize (E ! i)) (lsize ?l) \<rparr>]"
        using True add_share_update[OF il 1 2] by (simp add: aggregate_step_def)
      have "?s[f := (?s ! f)\<lparr> lsize := jsadd (lsize (?s ! f)) (lsize ?l) \<rparr>]
            = recs @ E[i := (E ! i)\<lparr> lsize := jsadd (lsize (E ! i)) (lsize ?l) \<rparr>]"
        using il by (simp add: f list_update_append nth_append)
      with Some t agg show ?thesis
        by (simp add: merge_step_def la Let_def)
    qed
  qed
qed

lemma merge_loop_refines:
  "\<forall>a\<in>set as. a < length recs \<Longrightarrow>
   foldl merge_step (recs @ E, [length recs ..< length recs + length E]) as
   = (recs @ foldl aggregate_step E (map (\<lambda>a. recs ! a) as),
      [length recs ..< length recs + length (foldl aggregate_step E (map (\<lambda>a. recs ! a) as))])"
proof (induction as arbitrary: E)
  case Nil
  then show ?case by simp
next
  case (Cons a as)
  then have "a < length recs" "\<forall>a\<in>set as. a < length recs" by simp_all
  then show ?case
    using Cons.IH[of "aggregate_step E (recs ! a)"] by (simp add: merge_step_refines)
qed

lemma merge_pass_refines:
  "merge_pass topLangs
   = (concat topLangs @ aggregate (concat topLangs),
      [length (concat topLangs) ..< length (concat topLangs) + length (aggregate (concat topLangs))])"
proof -
  have "map (\<lambda>a. concat topLangs ! a) [0 ..< length (concat topLangs)] = concat topLangs"
    by (rule map_nth)
  then show ?thesis
    unfolding merge_pass_def aggregate_def
    using merge_loop_refines[of "[0 ..< length (concat topLangs)]" "concat topLangs" "[]"]
    by simp
qed

lemma allUniqueLangs_aggregate: "allUniqueLangs topLangs = aggregate (concat topLangs)"
proof -
  have "map (\<lambda>a. (xs @ ys) ! a) [length xs ..< length xs + length ys] = ys" for xs ys :: "lang list"
    by (rule nth_equalityI) (simp_all add: nth_append)
  then show ?thesis
    by (simp add: allUniqueLangs_def merge_pass_refines)
qed

lemma same_lang_key: "same_lang x r \<longleftrightarrow> key x = key r"
  by (auto simp: same_lang_def key_def)

lemma aggregate_snoc: "aggregate (recs @ [r]) = aggregate_step (aggregate recs) r"
  by (simp add: aggregate_def)

lemma key_add_share:
  "map key (add_share r E) = (if key r \<in> set (map key E) then map key E else map key E @ [key r])"
  by (induction E) (auto simp: same_lang_key key_def)

lemma distinct_key_aggregate: "distinct (map key (aggregate recs))"
proof (induction recs rule: rev_induct)
  case Nil
  then show ?case by (simp add: aggregate_def)
next
  case (snoc r recs)
  then show ?case
    by (simp add: aggregate_snoc aggregate_step_def key_add_share del: set_map)
qed

lemma key_set_aggregate: "set (map key (aggregate recs)) = key ` {r \<in> set recs. valid r}"
proof (induction recs rule: rev_induct)
  case Nil
  then show ?case by (simp add: aggregate_def)
next
  case (snoc r recs)
  then show ?case
    by (auto simp: aggregate_snoc aggregate_step_def key_add_share simp del: set_map)
qed

lemma add_share_copy:
  "e \<in> set (add_share r E) \<Longrightarrow>
   e = r \<or> (\<exists>x\<in>set E. name e = name x \<and> color e = color x \<and> repo_name e = repo_name x)"
  by (induction E) (auto split: if_splits)

lemma aggregate_copy:
  "e \<in> set (aggregate recs) \<Longrightarrow>
   \<exists>r\<in>set recs. valid r \<and> name e = name r \<and> color e = color r \<and> repo_name e = repo_name r"
proof (induction recs arbitrary: e rule: rev_induct)
  case Nil
  then show ?case by (simp add: aggregate_def)
next
  case (snoc r recs)
  show ?case
  proof (cases "valid r")
    case False
    with snoc show ?thesis by (auto simp: aggregate_snoc aggregate_step_def)
  next
    case True
    with snoc.prems have "e \<in> set (add_share r (aggregate recs))"
      by (simp add: aggregate_snoc aggregate_step_def)
    then consider "e = r"
      | x where "x \<in> set (aggregate recs)" "name e = name x" "color e = color x"
          "repo_name e = repo_name x"
      using add_share_copy by blast
    then show ?thesis
    proof cases
      case 1
      with True show ?thesis by auto
    next
      case 2
      from snoc.IH[OF 2(1)] 2 show ?thesis by auto
    qed
  qed
qed

lemma aggregate_valid: "e \<in> set (aggregate recs) \<Longrightarrow> valid e"
  using aggregate_copy[of e recs] by (auto simp: valid_def)

lemma accumulated_size_add_share:
  "accumulated_size k (add_share r E)
   = (if key r = k
      then Some (case accumulated_size k E of None \<Rightarrow> lsize r | Some v \<Rightarrow> jsadd v (lsize r))
      else accumulated_size k E)"
  by (induction E) (auto simp: accumulated_size_def same_lang_key key_def)

lemma shares_snoc:
  "shares k (recs @ [r]) = shares k recs @ (if valid r \<and> key r = k then [lsize r] else [])"
  by (simp add: shares_def)

lemma accumulated_size_aggregate:
  "accumulated_size k (aggregate recs)
   = (if shares k recs = [] then None else Some (sum_list (shares k recs)))"
proof (induction recs rule: rev_induct)
  case Nil
  then show ?case by (simp add: aggregate_def accumulated_size_def shares_def)
next
  case (snoc r recs)
  show ?case
  proof (cases "valid r \<and> key r = k")
    case False
    with snoc show ?thesis
      by (auto simp: aggregate_snoc aggregate_step_def accumulated_size_add_share shares_snoc)
  next
    case True
    with snoc show ?thesis
      by (simp add: aggregate_snoc aggregate_step_def accumulated_size_add_share shares_snoc
          plus_jsnum_def[symmetric])
  qed
qed

lemma find_distinct_key:
  "distinct (map key E) \<Longrightarrow> e \<in> set E \<Longrightarrow> find (\<lambda>x. key x = key e) E = Some e"
  by (induction E) auto

lemma entry_size_aggregate:
  assumes "e \<in> set (aggregate recs)"
  shows "lsize e = sum_list (shares (key e) recs)"
proof -
  have "accumulated_size (key e) (aggregate recs) = Some (lsize e)"
    using find_distinct_key[OF distinct_key_aggregate assms] by (simp add: accumulated_size_def)
  then show ?thesis
    by (simp add: accumulated_size_aggregate split: if_splits)
qed

lemma shares_append: "shares k (A @ B) = shares k A @ shares k B"
  by (simp add: shares_def)

lemma set_insert_by: "set (insert_by cmp x ys) = insert x (set ys)"
  by (induction ys) auto

lemma set_sort_by: "set (sort_by cmp xs) = set xs"
  by (induction xs) (simp_all add: set_insert_by)

lemma length_insert_by: "length (insert_by cmp x ys) = Suc (length ys)"
  by (induction ys) auto

lemma length_sort_by: "length (sort_by cmp xs) = length xs"
  by (induction xs) (simp_all add: length_insert_by)

lemma scenario_eq:
  "scenario =
     [[\<lparr> name = Some ''JS'', color = Some ''#f1e05a'', lsize = Fin (4 / 5), repo_name = ''alpha'' \<rparr>,
       \<lparr> name = Some ''TS'', color = Some ''#2b7489'', lsize = Fin (1 / 5), repo_name = ''alpha'' \<rparr>],
      [\<lparr> name = Some ''TS'', color = Some ''#2b7489'', lsize = Fin (1 / 2), repo_name = ''beta'' \<rparr>,
       \<lparr> name = Some ''Go'', color = Some ''#00ADD8'', lsize = Fin (1 / 2), repo_name = ''beta'' \<rparr>],
      [\<lparr> name = Some ''TS'', color = Some ''#3178c6'', lsize = Fin (3 / 4), repo_name = ''gamma'' \<rparr>,
       \<lparr> name = Some ''Text'', color = None, lsize = Fin (1 / 4), repo_name = ''gamma'' \<rparr>]]"
  by (simp add: scenario_def topLangs_of_def normalize_repo_def totalSize_def reduce_add_def
      alpha_def beta_def gamma_def)

lemma aggregate_scenario:
  "aggregate (concat scenario) =
     [\<lparr> name = Some ''JS'', color = Some ''#f1e05a'', lsize = Fin (4 / 5), repo_name = ''alpha'' \<rparr>,
      \<lparr> name = Some ''TS'', color = Some ''#2b7489'', lsize = Fin (7 / 10), repo_name = ''alpha'' \<rparr>,
      \<lparr> name = Some ''Go'', color = Some ''#00ADD8'', lsize = Fin (1 / 2), repo_name = ''beta'' \<rparr>,
      \<lparr> name = Some ''TS'', color = Some ''#3178c6'', lsize = Fin (3 / 4), repo_name = ''gamma'' \<rparr>]"
  by (simp add: scenario_eq aggregate_def aggregate_step_def valid_def truthy_def same_lang_def)

text \<open>
  Claim C6. The merge pass leaves the records of the input as they are and keeps its
  entries in new objects behind them (a copy, never an alias). Its entries are those of
  the merge on values: every entry has a name and a color, no two entries have the same
  name and color, and the pairs of name and color that have an entry are those of the
  records that have both, so that records with a missing name or color are skipped and
  one name under two colors has two entries. The size of an entry is the sum of the
  shares of the records with its name and color, and its other fields are those of such
  a record.
\<close>

theorem merge_pass_by_name_and_color:
  "merge_pass topLangs
     = (concat topLangs @ allUniqueLangs topLangs,
        [length (concat topLangs) ..< length (concat topLangs) + length (allUniqueLangs topLangs)])
   \<and> allUniqueLangs topLangs = aggregate (concat topLangs)
   \<and> distinct (map key (allUniqueLangs topLangs))
   \<and> set (map key (allUniqueLangs topLangs)) = key ` {r \<in> set (concat topLangs). valid r}
   \<and> (\<forall>e\<in>set (allUniqueLangs topLangs).
         lsize e = sum_list (shares (key e) (concat topLangs))
         \<and> (\<exists>r\<in>set (concat topLangs).
               valid r \<and> name e = name r \<and> color e = color r \<and> repo_name e = repo_name r))"
  using merge_pass_refines[of topLangs] distinct_key_aggregate[of "concat topLangs"]
    key_set_aggregate[of "concat topLangs"] entry_size_aggregate[of _ "concat topLangs"]
    aggregate_copy[of _ "concat topLangs"]
  by (simp only: allUniqueLangs_aggregate) blast

theorem merge_pass_by_name_and_color_witness:
  "allUniqueLangs scenario =
     [\<lparr> name = Some ''JS'', color = Some ''#f1e05a'', lsize = Fin (4 / 5), repo_name = ''alpha'' \<rparr>,
      \<lparr> name = Some ''TS'', color = Some ''#2b7489'', lsize = Fin (7 / 10), repo_name = ''alpha'' \<rparr>,
      \<lparr> name = Some ''Go'', color = Some ''#00ADD8'', lsize = Fin (1 / 2), repo_name = ''beta'' \<rparr>,
      \<lparr> name = Some ''TS'', color = Some ''#3178c6'', lsize = Fin (3 / 4), repo_name = ''gamma'' \<rparr>]
   \<and> fst (merge_pass scenario) = concat scenario @ allUniqueLangs scenario
   \<and> snd (merge_pass scenario) = [6, 7, 8, 9]
   \<and> distinct (map key (allUniqueLangs scenario))"
proof -
  note t = merge_pass_by_name_and_color[of scenario]
  from t have a: "allUniqueLangs scenario = aggregate (concat scenario)" by blast
  have l: "length (concat scenario) = 6" by (simp add: scenario_eq)
  have "[6 ..< 10] = [6, 7, 8, 9 :: nat]" by (simp add: upt_conv_Cons)
  with t l show ?thesis
    by (simp add: a aggregate_scenario)
qed

text \<open>
  Claim C10. For two repositories \<open>A\<close> and \<open>B\<close>, merging \<open>[A, B]\<close> and merging \<open>[B, A]\<close>
  accumulate the same size for every pair of name and color, numbers being exact. (The
  order of the entries may differ.)
\<close>

theorem merge_commutes:
  "accumulated_size k (allUniqueLangs [A, B]) = accumulated_size k (allUniqueLangs [B, A])"
proof -
  have "sum_list (shares k A) + sum_list (shares k B) = sum_list (shares k B) + sum_list (shares k A)"
    by (rule add.commute)
  then show ?thesis
    by (auto simp: allUniqueLangs_aggregate accumulated_size_aggregate shares_append)
qed

theorem merge_commutes_witness:
  "accumulated_size (Some ''TS'', Some ''#2b7489'') (allUniqueLangs [normalize_repo alpha, normalize_repo beta])
     = Some (Fin (7 / 10))
   \<and> accumulated_size (Some ''TS'', Some ''#2b7489'') (allUniqueLangs [normalize_repo beta, normalize_repo alpha])
     = Some (Fin (7 / 10))
   \<and> map name (allUniqueLangs [normalize_repo alpha, normalize_repo beta]) = [Some ''JS'', Some ''TS'', Some ''Go'']
   \<and> map name (allUniqueLangs [normalize_repo beta, normalize_repo alpha]) = [Some ''TS'', Some ''Go'', Some ''JS'']"
proof -
  have A: "normalize_repo alpha =
     [\<lparr> name = Some ''JS'', color = Some ''#f1e05a'', lsize = Fin (4 / 5), repo_name = ''alpha'' \<rparr>,
      \<lparr> name = Some ''TS'', color = Some ''#2b7489'', lsize = Fin (1 / 5), repo_name = ''alpha'' \<rparr>]"
    by (simp add: normalize_repo_def totalSize_def reduce_add_def alpha_def)
  have B: "normalize_repo beta =
     [\<lparr> name = Some ''TS'', color = Some ''#2b7489'', lsize = Fin (1 / 2), repo_name = ''beta'' \<rparr>,
      \<lparr> name = Some ''Go'', color = Some ''#00ADD8'', lsize = Fin (1 / 2), repo_name = ''beta'' \<rparr>]"
    by (simp add: normalize_repo_def totalSize_def reduce_add_def beta_def)
  have ba: "allUniqueLangs [normalize_repo beta, normalize_repo alpha] =
     [\<lparr> name = Some ''TS'', color = Some ''#2b7489'', lsize = Fin (7 / 10), repo_name = ''beta'' \<rparr>,
      \<lparr> name = Some ''Go'', color = Some ''#00ADD8'', lsize = Fin (1 / 2), repo_name = ''beta'' \<rparr>,
      \<lparr> name = Some ''JS'', color = Some ''#f1e05a'', lsize = Fin (4 / 5), repo_name = ''alpha'' \<rparr>]"
    by (simp add: allUniqueLangs_aggregate A B aggregate_def aggregate_step_def valid_def
        truthy_def same_lang_def)
  have ab: "map name (allUniqueLangs [normalize_repo alpha, normalize_repo beta]) = [Some ''JS'', Some ''TS'', Some ''Go'']"
    by (simp add: allUniqueLangs_aggregate A B aggregate_def aggregate_step_def valid_def
        truthy_def same_lang_def)
  have s: "accumulated_size (Some ''TS'', Some ''#2b7489'') (allUniqueLangs [normalize_repo beta, normalize_repo alpha])
     = Some (Fin (7 / 10))"
    by (simp add: ba accumulated_size_def key_def)
  from merge_commutes[of "(Some ''TS'', Some ''#2b7489'')" "normalize_repo alpha" "normalize_repo beta"] s ab ba
  show ?thesis by simp
qed

section \<open>Properties of the card\<close>

lemma getLongestLang_total:
  "\<forall>l\<in>set ls. name l \<noteq> None \<Longrightarrow> \<exists>p. getLongestLang ls = Inr p"
proof -
  let ?f = "\<lambda>saved l. case saved of Inl e \<Rightarrow> Inl e
      | Inr (n, sz) \<Rightarrow> (case name l of None \<Rightarrow> Inl TypeError
          | Some m \<Rightarrow> if length n < length m then Inr (m, Some (lsize l)) else Inr (n, sz))"
  have "\<forall>l\<in>set ls. name l \<noteq> None \<Longrightarrow> \<exists>p'. foldl ?f (Inr p) ls = Inr p'"
    for p :: "string \<times> jsnum option"
  proof (induction ls arbitrary: p)
    case Nil
    then show ?case by simp
  next
    case (Cons l ls)
    then obtain m where m: "name l = Some m" by auto
    obtain n sz where p: "p = (n, sz)" by (cases p)
    from Cons.prems have rest: "\<forall>l\<in>set ls. name l \<noteq> None" by simp
    show ?case
      using Cons.IH[OF rest, of "(m, Some (lsize l))"] Cons.IH[OF rest, of "(n, sz)"]
      by (simp add: m p)
  qed
  then show "\<forall>l\<in>set ls. name l \<noteq> None \<Longrightarrow> \<exists>p. getLongestLang ls = Inr p"
    unfolding getLongestLang_def by blast
qed

lemma legend_total:
  "\<exists>legend. createLanguageTextNode E (sort_by by_size_desc (allUniqueLangs topLangs)) = Inr legend"
proof -
  have "\<forall>l\<in>set (sort_by by_size_desc (allUniqueLangs topLangs)). name l \<noteq> None"
  proof
    fix l assume "l \<in> set (sort_by by_size_desc (allUniqueLangs topLangs))"
    then have "valid l" by (simp add: set_sort_by allUniqueLangs_aggregate aggregate_valid)
    then show "name l \<noteq> None" by (auto simp: valid_def truthy_def split: option.splits)
  qed
  from getLongestLang_total[OF this] obtain p where
    "getLongestLang (sort_by by_size_desc (allUniqueLangs topLangs)) = Inr p" by blast
  then show ?thesis
    by (cases p) (simp add: createLanguageTextNode_def Let_def)
qed

text \<open>The card is always built: the legend never reads the length of a missing name.\<close>

lemma topLanguagesCard_total:
  "\<exists>c body. topLanguagesCard E topLangs username opts = Inr (c, body)
     \<and> c_height c = calculateCompactLayoutHeight (js_length topLangs)"
proof -
  from legend_total obtain legend where
    "createLanguageTextNode E (sort_by by_size_desc (allUniqueLangs topLangs)) = Inr legend"
    by blast
  then show ?thesis
    by (simp add: topLanguagesCard_def Let_def)
qed

lemma round_half_nat: "round (of_nat r / 2 :: rat) = int ((r + 1) div 2)"
proof -
  have "(of_nat r / 2 + 1 / 2 :: rat) = of_int (int r + 1) / of_int 2" by (simp add: add_divide_distrib)
  then have "\<lfloor>of_nat r / 2 + 1 / 2 :: rat\<rfloor> = (int r + 1) div 2"
    by (simp only: floor_divide_of_int_eq)
  then show ?thesis by (simp add: round_def zdiv_int)
qed

text \<open>
  Claim C8. \<open>calculateNormalLayoutHeight(n)\<close> is \<open>45 + (n + 1) * 40\<close> for a selection of
  \<open>n\<close> languages, \<open>calculateCompactLayoutHeight(r)\<close> is \<open>90 + round(r / 2) * 19\<close> for \<open>r\<close>
  repositories (a half rounds up, so this is \<open>90 + ((r + 1) div 2) * 19\<close>), and the card
  that \<open>renderTopLanguages\<close> builds has the compact height of the number of repositories
  in its input.
\<close>

theorem layout_heights:
  "calculateNormalLayoutHeight (Fin (of_nat n)) = Fin (of_nat (45 + (n + 1) * 40))
   \<and> calculateCompactLayoutHeight (Fin (of_nat r)) = Fin (90 + of_int (round (of_nat r / 2 :: rat)) * 19)
   \<and> calculateCompactLayoutHeight (Fin (of_nat r)) = Fin (of_nat (90 + (r + 1) div 2 * 19))
   \<and> (\<exists>c body. topLanguagesCard E topLangs username opts = Inr (c, body)
        \<and> c_height c = calculateCompactLayoutHeight (Fin (of_nat (length topLangs))))"
proof -
  have 1: "calculateNormalLayoutHeight (Fin (of_nat n)) = Fin (of_nat (45 + (n + 1) * 40))"
    by (simp add: calculateNormalLayoutHeight_def)
  have 2: "calculateCompactLayoutHeight (Fin (of_nat r)) = Fin (90 + of_int (round (of_nat r / 2 :: rat)) * 19)"
    by (simp add: calculateCompactLayoutHeight_def round_def)
  have 3: "calculateCompactLayoutHeight (Fin (of_nat r)) = Fin (of_nat (90 + (r + 1) div 2 * 19))"
    unfolding 2 round_half_nat by simp
  from 1 2 3 topLanguagesCard_total[of E topLangs username opts] show ?thesis
    by (simp add: js_length_def)
qed

text \<open>
  Claim C3. Two runs of \<open>renderTopLanguages\<close> on the same \<open>topLangs\<close> and \<open>username\<close> whose
  options differ in \<open>hide\<close>, \<open>layout\<close> and \<open>langs_count\<close> only build the same card (height
  and body) and return the same markup.
\<close>

theorem unused_options:
  "topLanguagesCard E topLangs username (opts\<lparr> hide := h, layout := l, langs_count := c \<rparr>)
     = topLanguagesCard E topLangs username opts
   \<and> renderTopLanguages E topLangs username (opts\<lparr> hide := h, layout := l, langs_count := c \<rparr>)
     = renderTopLanguages E topLangs username opts"
  by (simp add: topLanguagesCard_def renderTopLanguages_def Let_def cong: sum.case_cong)

section \<open>Properties of the compact layout\<close>

lemma round2_error: "\<bar>round2 a - a\<bar> \<le> 1 / 200"
proof -
  have fl: "\<bar>of_int \<lfloor>y + 1 / 2\<rfloor> - y\<bar> \<le> 1 / 2" for y :: rat
    by linarith
  show ?thesis
  proof (cases "10 ^ 21 \<le> \<bar>a\<bar>")
    case True
    then show ?thesis by (simp add: round2_def)
  next
    case big: False
    show ?thesis
    proof (cases "a < 0")
      case True
      from fl[of "- a * 100"] have "\<bar>of_int \<lfloor>- a * 100 + 1 / 2\<rfloor> / 100 + a\<bar> \<le> 1 / 200"
        by (simp add: abs_le_iff field_simps)
      moreover have "\<bar>- (of_int \<lfloor>- a * 100 + 1 / 2\<rfloor> / 100) - a\<bar>
          = \<bar>of_int \<lfloor>- a * 100 + 1 / 2\<rfloor> / 100 + a\<bar>"
        by linarith
      ultimately show ?thesis using big True by (simp add: round2_def)
    next
      case False
      from fl[of "a * 100"] have "\<bar>of_int \<lfloor>a * 100 + 1 / 2\<rfloor> / 100 - a\<bar> \<le> 1 / 200"
        by (simp add: abs_le_iff field_simps)
      with big False show ?thesis by (simp add: round2_def)
    qed
  qed
qed

lemma sum_round2_error:
  "\<bar>sum_list (map round2 xs) - sum_list xs\<bar> \<le> of_nat (length xs) / 200"
proof (induction xs)
  case Nil
  then show ?case by simp
next
  case (Cons x xs)
  have "\<bar>(round2 x + sum_list (map round2 xs)) - (x + sum_list xs)\<bar>
        \<le> \<bar>round2 x - x\<bar> + \<bar>sum_list (map round2 xs) - sum_list xs\<bar>"
    by linarith
  with round2_error[of x] Cons.IH show ?case
    by (simp add: add_divide_distrib)
qed

lemma sum_list_mult_const_rat: "sum_list (map (\<lambda>q. q * w) qs) = sum_list qs * (w::rat)"
  by (induction qs) (simp_all add: distrib_right)

lemma percentages_compactProgressBar:
  "map seg_percentage (compactProgressBar w off ls) = map (\<lambda>l. toFixed2 (jsmul (lsize l) w)) ls"
  by (induction ls arbitrary: off) (simp_all add: Let_def)

lemma langs_compactProgressBar: "map seg_lang (compactProgressBar w off ls) = ls"
  by (induction ls arbitrary: off) (simp_all add: Let_def)

lemma length_compactProgressBar: "length (compactProgressBar w off ls) = length ls"
  by (induction ls arbitrary: off) (simp_all add: Let_def)

lemma segment_compactProgressBar:
  "g \<in> set (compactProgressBar w off ls) \<Longrightarrow>
     seg_percentage g = toFixed2 (jsmul (lsize (seg_lang g)) w)
     \<and> seg_progress g = (if jslt (seg_percentage g) (Fin 10) then jsadd (seg_percentage g) (Fin 10)
                          else seg_percentage g)"
  by (induction ls arbitrary: off) (auto simp: Let_def)

lemma offsets_compactProgressBar:
  "i < length ls \<Longrightarrow>
   seg_x (compactProgressBar w off ls ! i)
   = off + sum_list (map seg_percentage (take i (compactProgressBar w off ls)))"
proof (induction ls arbitrary: off i)
  case Nil
  then show ?case by simp
next
  case (Cons l ls)
  show ?case
  proof (cases i)
    case 0
    then show ?thesis by (simp add: Let_def)
  next
    case (Suc j)
    with Cons.prems have "j < length ls" by simp
    from Cons.IH[OF this] Suc show ?thesis
      by (simp add: Let_def plus_jsnum_def[symmetric] add.assoc)
  qed
qed

lemma next_offset_compactProgressBar:
  assumes "Suc i < length ls"
  shows "seg_x (compactProgressBar w off ls ! Suc i)
         = jsadd (seg_x (compactProgressBar w off ls ! i)) (seg_percentage (compactProgressBar w off ls ! i))"
proof -
  let ?segs = "compactProgressBar w off ls"
  from assms have i: "i < length ?segs" by (simp add: length_compactProgressBar)
  have "take (Suc i) ?segs = take i ?segs @ [?segs ! i]"
    using i by (rule take_Suc_conv_app_nth)
  then have "sum_list (map seg_percentage (take (Suc i) ?segs))
        = sum_list (map seg_percentage (take i ?segs)) + seg_percentage (?segs ! i)"
    by simp
  with offsets_compactProgressBar[OF assms, of w off] offsets_compactProgressBar[of i ls w off] assms
  show ?thesis by (simp add: plus_jsnum_def[symmetric] add.assoc)
qed

lemma percentage_sum:
  assumes "reduce_add (map lsize ls) = Fin 1"
  shows "\<exists>qs. map lsize ls = map Fin qs \<and> sum_list qs = 1
     \<and> sum_list (map seg_percentage (compactProgressBar (Fin w) off ls))
       = Fin (sum_list (map round2 (map (\<lambda>q. q * w) qs)))"
proof -
  from assms obtain qs where qs: "map lsize ls = map Fin qs" and one: "1 = sum_list qs"
    using sum_list_Fin_D[of "map lsize ls" 1] by (auto simp: reduce_add_sum_list)
  have "map (\<lambda>l. toFixed2 (jsmul (lsize l) (Fin w))) ls
        = map (\<lambda>x. toFixed2 (jsmul x (Fin w))) (map lsize ls)"
    by (simp add: comp_def)
  also have "\<dots> = map Fin (map round2 (map (\<lambda>q. q * w) qs))"
    by (simp add: qs comp_def)
  finally have "sum_list (map seg_percentage (compactProgressBar (Fin w) off ls))
       = Fin (sum_list (map round2 (map (\<lambda>q. q * w) qs)))"
    by (simp only: percentages_compactProgressBar sum_list_map_Fin)
  with qs one show ?thesis by auto
qed

text \<open>
  Claim C9 says that the widths before the boost are each share times \<open>cardWidth\<close> and sum
  to exactly \<open>cardWidth\<close>. The code rounds each product to two decimals
  (\<open>parseFloat((lang.size * offsetWidth).toFixed(2))\<close>): three shares of one third on a
  strip of 230 give three widths of 76.67, which sum to 230.01.
\<close>

theorem compact_widths_counterexample:
  "reduce_add (map lsize thirds) = Fin 1
   \<and> map seg_percentage (compactProgressBar (Fin 230) (Fin 0) thirds)
     = [Fin (7667 / 100), Fin (7667 / 100), Fin (7667 / 100)]
   \<and> map (\<lambda>l. jsmul (lsize l) (Fin 230)) thirds = [Fin (230 / 3), Fin (230 / 3), Fin (230 / 3)]
   \<and> reduce_add (map seg_percentage (compactProgressBar (Fin 230) (Fin 0) thirds)) = Fin (23001 / 100)
   \<and> reduce_add (map seg_percentage (compactProgressBar (Fin 230) (Fin 0) thirds)) \<noteq> Fin 230"
proof -
  have fl: "\<lfloor>46003 / 6 :: rat\<rfloor> = 7667" by (rule floor_unique) simp_all
  show ?thesis by (simp add: thirds_def reduce_add_def Let_def round2_def fl)
qed

text \<open>
  Claim C9, amended. In \<open>renderCompactLayout\<close> applied to one repository whose shares sum
  to 1, on a strip of finite width, the width of a segment before the boost is its share
  times \<open>cardWidth\<close> rounded to two decimals, so these widths sum to \<open>cardWidth\<close> up to 0.005
  for each segment, and to exactly \<open>cardWidth\<close> when no product is changed by the rounding.
  A segment whose width before the boost is below 10 is rendered 10 wider. The offset of
  a segment is the sum of the widths before the boost of the segments before it, so when
  no segment is boosted every segment begins where the one before it ends.
\<close>

theorem compact_segments:
  assumes "reduce_add (map lsize ls) = Fin 1"
    and "segs = compactProgressBar (Fin w) (Fin 0) ls"
  shows "(\<forall>g\<in>set segs.
            seg_percentage g = toFixed2 (jsmul (lsize (seg_lang g)) (Fin w))
            \<and> seg_progress g = (if jslt (seg_percentage g) (Fin 10)
                                 then jsadd (seg_percentage g) (Fin 10) else seg_percentage g))
       \<and> (\<exists>total. sum_list (map seg_percentage segs) = Fin total
             \<and> \<bar>total - w\<bar> \<le> of_nat (length ls) / 200
             \<and> ((\<forall>l\<in>set ls. toFixed2 (jsmul (lsize l) (Fin w)) = jsmul (lsize l) (Fin w))
                  \<longrightarrow> total = w))
       \<and> (\<forall>i<length segs. seg_x (segs ! i) = sum_list (map seg_percentage (take i segs)))
       \<and> ((\<forall>g\<in>set segs. \<not> jslt (seg_percentage g) (Fin 10)) \<longrightarrow>
            (\<forall>i. Suc i < length segs \<longrightarrow>
               seg_x (segs ! Suc i) = jsadd (seg_x (segs ! i)) (seg_progress (segs ! i))))"
proof (intro conjI)
  show "\<forall>g\<in>set segs.
            seg_percentage g = toFixed2 (jsmul (lsize (seg_lang g)) (Fin w))
            \<and> seg_progress g = (if jslt (seg_percentage g) (Fin 10)
                                 then jsadd (seg_percentage g) (Fin 10) else seg_percentage g)"
    using segment_compactProgressBar unfolding assms(2) by blast
next
  from percentage_sum[OF assms(1), of w "Fin 0"] obtain qs where
    qs: "map lsize ls = map Fin qs" and one: "sum_list qs = 1"
    and s: "sum_list (map seg_percentage segs) = Fin (sum_list (map round2 (map (\<lambda>q. q * w) qs)))"
    unfolding assms(2) by blast
  let ?xs = "map (\<lambda>q. q * w) qs"
  have len: "length qs = length ls" using qs by (metis length_map)
  have sumx: "sum_list ?xs = w" by (simp add: sum_list_mult_const_rat one)
  have bound: "\<bar>sum_list (map round2 ?xs) - w\<bar> \<le> of_nat (length ls) / 200"
    using sum_round2_error[of ?xs] by (simp add: sumx len)
  have exact: "sum_list (map round2 ?xs) = w"
    if h: "\<forall>l\<in>set ls. toFixed2 (jsmul (lsize l) (Fin w)) = jsmul (lsize l) (Fin w)"
  proof -
    have "\<forall>x\<in>set (map lsize ls). toFixed2 (jsmul x (Fin w)) = jsmul x (Fin w)"
      using h by simp
    then have "\<forall>q\<in>set qs. round2 (q * w) = q * w" by (simp add: qs)
    then have "map round2 ?xs = ?xs" by (simp add: map_idI)
    then show ?thesis by (simp only: sumx)
  qed
  from s bound exact
  show "\<exists>total. sum_list (map seg_percentage segs) = Fin total
             \<and> \<bar>total - w\<bar> \<le> of_nat (length ls) / 200
             \<and> ((\<forall>l\<in>set ls. toFixed2 (jsmul (lsize l) (Fin w)) = jsmul (lsize l) (Fin w))
                  \<longrightarrow> total = w)"
    by blast
next
  show "\<forall>i<length segs. seg_x (segs ! i) = sum_list (map seg_percentage (take i segs))"
    using offsets_compactProgressBar[of _ ls "Fin w" "Fin 0"]
    unfolding assms(2) by (simp add: length_compactProgressBar zero_jsnum_def[symmetric])
next
  show "(\<forall>g\<in>set segs. \<not> jslt (seg_percentage g) (Fin 10)) \<longrightarrow>
            (\<forall>i. Suc i < length segs \<longrightarrow>
               seg_x (segs ! Suc i) = jsadd (seg_x (segs ! i)) (seg_progress (segs ! i)))"
  proof (intro impI allI)
    fix i assume nb: "\<forall>g\<in>set segs. \<not> jslt (seg_percentage g) (Fin 10)" and i: "Suc i < length segs"
    then have il: "Suc i < length ls" by (simp add: assms(2) length_compactProgressBar)
    from i have mem: "segs ! i \<in> set segs" by simp
    then have "seg_progress (segs ! i) = seg_percentage (segs ! i)"
      using nb segment_compactProgressBar[of "segs ! i" "Fin w" "Fin 0" ls]
      unfolding assms(2) by simp
    with next_offset_compactProgressBar[OF il, of "Fin w" "Fin 0"]
    show "seg_x (segs ! Suc i) = jsadd (seg_x (segs ! i)) (seg_progress (segs ! i))"
      unfolding assms(2) by simp
  qed
qed

theorem compact_segments_witness:
  "reduce_add (map lsize (normalize_repo alpha)) = Fin 1
   \<and> map seg_percentage (compactProgressBar (Fin 300) (Fin 0) (normalize_repo alpha)) = [Fin 240, Fin 60]
   \<and> map seg_progress (compactProgressBar (Fin 300) (Fin 0) (normalize_repo alpha)) = [Fin 240, Fin 60]
   \<and> map seg_x (compactProgressBar (Fin 300) (Fin 0) (normalize_repo alpha)) = [Fin 0, Fin 240]
   \<and> reduce_add (map seg_percentage (compactProgressBar (Fin 300) (Fin 0) (normalize_repo alpha))) = Fin 300
   \<and> (\<exists>total. sum_list (map seg_percentage (compactProgressBar (Fin 300) (Fin 0) (normalize_repo alpha)))
               = Fin total \<and> \<bar>total - 300\<bar> \<le> 2 / 200)"
proof -
  have A: "normalize_repo alpha =
     [\<lparr> name = Some ''JS'', color = Some ''#f1e05a'', lsize = Fin (4 / 5), repo_name = ''alpha'' \<rparr>,
      \<lparr> name = Some ''TS'', color = Some ''#2b7489'', lsize = Fin (1 / 5), repo_name = ''alpha'' \<rparr>]"
    by (simp add: normalize_repo_def totalSize_def reduce_add_def alpha_def)
  have one: "reduce_add (map lsize (normalize_repo alpha)) = Fin 1"
    by (simp add: A reduce_add_def)
  have "\<lfloor>48001 / 2 :: rat\<rfloor> = 24000" "\<lfloor>12001 / 2 :: rat\<rfloor> = 6000"
    by (rule floor_unique, simp, simp)+
  then have r: "round2 240 = 240" "round2 60 = 60"
    by (simp_all add: round2_def)
  have segs: "compactProgressBar (Fin 300) (Fin 0) (normalize_repo alpha) =
     [\<lparr> seg_x = Fin 0, seg_progress = Fin 240, seg_percentage = Fin 240,
         seg_lang = \<lparr> name = Some ''JS'', color = Some ''#f1e05a'', lsize = Fin (4 / 5), repo_name = ''alpha'' \<rparr> \<rparr>,
      \<lparr> seg_x = Fin 240, seg_progress = Fin 60, seg_percentage = Fin 60,
         seg_lang = \<lparr> name = Some ''TS'', color = Some ''#2b7489'', lsize = Fin (1 / 5), repo_name = ''alpha'' \<rparr> \<rparr>]"
    by (simp add: A Let_def r)
  have len: "length (normalize_repo alpha) = 2" by (simp add: A)
  from compact_segments[OF one refl, of 300] obtain total where
    "sum_list (map seg_percentage (compactProgressBar (Fin 300) (Fin 0) (normalize_repo alpha))) = Fin total"
    "\<bar>total - 300\<bar> \<le> of_nat (length (normalize_repo alpha)) / 200"
    by blast
  then have "\<exists>total. sum_list (map seg_percentage (compactProgressBar (Fin 300) (Fin 0) (normalize_repo alpha)))
               = Fin total \<and> \<bar>total - 300\<bar> \<le> 2 / 200"
    by (auto simp: len)
  moreover have "map seg_percentage (compactProgressBar (Fin 300) (Fin 0) (normalize_repo alpha)) = [Fin 240, Fin 60]"
    "map seg_progress (compactProgressBar (Fin 300) (Fin 0) (normalize_repo alpha)) = [Fin 240, Fin 60]"
    "map seg_x (compactProgressBar (Fin 300) (Fin 0) (normalize_repo alpha)) = [Fin 0, Fin 240]"
    "reduce_add (map seg_percentage (compactProgressBar (Fin 300) (Fin 0) (normalize_repo alpha))) = Fin 300"
    by (simp_all add: segs reduce_add_def)
  ultimately show ?thesis using one by blast
qed

section \<open>Properties of \<open>useLanguages\<close>\<close>

lemma parseInt_cases: "parseInt str = NaN \<or> (\<exists>i::int. parseInt str = Fin (of_int i))"
proof -
  have "parseInt str = NaN \<or> (\<exists>q\<in>\<int>. parseInt str = Fin q)"
    by (simp add: parseInt_def Let_def)
  then show ?thesis by (auto elim: Ints_cases)
qed

lemma clamp_int:
  "clampValue (Fin (of_int i)) (Fin 1) (Fin 10) = Fin (of_int (max 1 (min i 10)))"
  by (simp add: clampValue_def isNaN_def math_min_def math_max_def max_def min_def)

lemma clamp_NaN: "clampValue NaN (Fin 1) (Fin 10) = Fin 1"
  by (simp add: clampValue_def isNaN_def)

lemma clampValue_count:
  "\<exists>k. clampValue (parseInt str) (Fin 1) (Fin 10) = Fin (of_nat k) \<and> 1 \<le> k \<and> k \<le> 10"
proof -
  consider "parseInt str = NaN" | i :: int where "parseInt str = Fin (of_int i)"
    using parseInt_cases by blast
  then show ?thesis
  proof cases
    case 1
    then have "clampValue (parseInt str) (Fin 1) (Fin 10) = Fin (of_nat 1)"
      by (simp add: clamp_NaN)
    then show ?thesis by (intro exI[of _ 1]) simp
  next
    case 2
    let ?k = "nat (max 1 (min i 10))"
    have "(of_nat ?k :: rat) = of_int (int ?k)" by (rule of_int_of_nat_eq[symmetric])
    also have "int ?k = max 1 (min i 10)" by simp
    finally have "(of_nat ?k :: rat) = of_int (max 1 (min i 10))" .
    then have "clampValue (parseInt str) (Fin 1) (Fin 10) = Fin (of_nat ?k)"
      by (simp only: 2 clamp_int)
    moreover have "1 \<le> ?k" "?k \<le> 10" by simp_all
    ultimately show ?thesis by blast
  qed
qed

lemma slice0_nat: "slice0 xs (Fin (of_nat k)) = take k xs"
  by (simp add: slice0_def Let_def min_def)

lemma useLanguages_langs:
  "clampValue (parseInt count) (Fin 1) (Fin 10) = Fin (of_nat k) \<Longrightarrow>
   langs (useLanguages topLangs hidden count)
   = take k (filter (\<lambda>l. \<not> langsToHide hidden (lowercaseTrim (Lang_name l)))
       (sort_by (\<lambda>a b. jssub (Lang_size b) (Lang_size a)) (Object_values topLangs)))"
  by (simp add: useLanguages_def Let_def slice0_nat)

text \<open>
  Claim C4. Whatever the languages, the hide list and the requested count, the count is
  clamped to a whole number \<open>k\<close> from 1 to 10, \<open>useLanguages\<close> returns at most \<open>k\<close>
  languages, and the name of a returned language, in lower case and trimmed, differs from
  every entry of the hide list in lower case and trimmed.
\<close>

theorem useLanguages_bounded_and_hidden:
  "\<exists>k. clampValue (parseInt count) (Fin 1) (Fin 10) = Fin (of_nat k) \<and> 1 \<le> k \<and> k \<le> 10
     \<and> length (langs (useLanguages topLangs hidden count)) \<le> k
     \<and> (\<forall>l\<in>set (langs (useLanguages topLangs hidden count)).
          \<forall>hs. hidden = Some hs \<longrightarrow> (\<forall>h\<in>set hs. lowercaseTrim (Lang_name l) \<noteq> lowercaseTrim h))"
proof -
  from clampValue_count obtain k where
    k: "clampValue (parseInt count) (Fin 1) (Fin 10) = Fin (of_nat k)" "1 \<le> k" "k \<le> 10"
    by blast
  note l = useLanguages_langs[OF k(1), of topLangs hidden]
  have "length (langs (useLanguages topLangs hidden count)) \<le> k"
    by (simp add: l)
  moreover have "\<forall>l\<in>set (langs (useLanguages topLangs hidden count)).
          \<forall>hs. hidden = Some hs \<longrightarrow> (\<forall>h\<in>set hs. lowercaseTrim (Lang_name l) \<noteq> lowercaseTrim h)"
  proof (intro ballI allI impI)
    fix x hs h
    assume x: "x \<in> set (langs (useLanguages topLangs hidden count))"
      and hs: "hidden = Some hs" and h: "h \<in> set hs"
    from x have "x \<in> set (filter (\<lambda>l. \<not> langsToHide hidden (lowercaseTrim (Lang_name l)))
       (sort_by (\<lambda>a b. jssub (Lang_size b) (Lang_size a)) (Object_values topLangs)))"
      unfolding l by (rule in_set_takeD)
    then have "\<not> langsToHide hidden (lowercaseTrim (Lang_name x))" by simp
    then have "lowercaseTrim (Lang_name x) \<notin> set (map lowercaseTrim hs)"
      by (simp add: langsToHide_def own_keys_def hs)
    with h show "lowercaseTrim (Lang_name x) \<noteq> lowercaseTrim h" by auto
  qed
  ultimately show ?thesis using k by blast
qed

theorem useLanguages_bounded_and_hidden_witness:
  "clampValue (parseInt ''2'') (Fin 1) (Fin 10) = Fin 2
   \<and> langs (useLanguages ranked (Some ['' js '']) ''2'')
     = [\<lparr> Lang_name = ''TS'', Lang_color = Some ''#2b7489'', Lang_size = Fin (7 / 10) \<rparr>,
        \<lparr> Lang_name = ''Go'', Lang_color = Some ''#00ADD8'', Lang_size = Fin (1 / 2) \<rparr>]
   \<and> length (langs (useLanguages ranked (Some ['' js '']) ''2'')) \<le> 2
   \<and> lowercaseTrim ''TS'' \<noteq> lowercaseTrim '' js ''
   \<and> lowercaseTrim ''Go'' \<noteq> lowercaseTrim '' js ''"
proof -
  from useLanguages_bounded_and_hidden[of "''2''" ranked "Some ['' js '']"] obtain k where
    k: "clampValue (parseInt ''2'') (Fin 1) (Fin 10) = Fin (of_nat k)"
    and len: "length (langs (useLanguages ranked (Some ['' js '']) ''2'')) \<le> k"
    and hid: "\<forall>l\<in>set (langs (useLanguages ranked (Some ['' js '']) ''2'')).
          \<forall>hs. Some ['' js ''] = Some hs \<longrightarrow> (\<forall>h\<in>set hs. lowercaseTrim (Lang_name l) \<noteq> lowercaseTrim h)"
    by blast
  have c: "clampValue (parseInt ''2'') (Fin 1) (Fin 10) = Fin 2" by code_simp
  with k have k2: "k = 2" by simp
  have u: "langs (useLanguages ranked (Some ['' js '']) ''2'')
     = [\<lparr> Lang_name = ''TS'', Lang_color = Some ''#2b7489'', Lang_size = Fin (7 / 10) \<rparr>,
        \<lparr> Lang_name = ''Go'', Lang_color = Some ''#00ADD8'', Lang_size = Fin (1 / 2) \<rparr>]"
    by code_simp
  from hid have "lowercaseTrim ''TS'' \<noteq> lowercaseTrim '' js ''" "lowercaseTrim ''Go'' \<noteq> lowercaseTrim '' js ''"
    unfolding u by simp_all
  with c u len k2 show ?thesis by simp
qed

text \<open>
  The order of the steps in \<open>useLanguages\<close>: the languages are sorted, those that the
  lookup \<open>langsToHide\<close> answers for are removed, and only then the first \<open>k\<close> are kept. When
  the first of the sorted languages is in the hide list, the selection is cut from the
  rest; when no name in the rest is an inherited property name, the rest is filtered by
  the hide list alone.
\<close>

lemma useLanguages_hide_before_truncate:
  assumes "sort_by (\<lambda>a b. jssub (Lang_size b) (Lang_size a)) (Object_values topLangs) = first # rest"
    and "lowercaseTrim (Lang_name first) \<in> set (own_keys hidden)"
    and "clampValue (parseInt count) (Fin 1) (Fin 10) = Fin (of_nat k)"
  shows "langs (useLanguages topLangs hidden count)
         = take k (filter (\<lambda>l. \<not> langsToHide hidden (lowercaseTrim (Lang_name l))) rest)"
  using assms(1,2) by (simp add: useLanguages_langs[OF assms(3)] langsToHide_def)

lemma useLanguages_promotes_next:
  assumes "sort_by (\<lambda>a b. jssub (Lang_size b) (Lang_size a)) (Object_values topLangs) = first # rest"
    and "lowercaseTrim (Lang_name first) \<in> set (own_keys hidden)"
    and "clampValue (parseInt count) (Fin 1) (Fin 10) = Fin (of_nat k)"
    and "\<forall>l\<in>set rest. lowercaseTrim (Lang_name l) \<notin> set object_prototype_keys"
  shows "langs (useLanguages topLangs hidden count)
         = take k (filter (\<lambda>l. lowercaseTrim (Lang_name l) \<notin> set (own_keys hidden)) rest)"
proof -
  have "filter (\<lambda>l. \<not> langsToHide hidden (lowercaseTrim (Lang_name l))) rest
        = filter (\<lambda>l. lowercaseTrim (Lang_name l) \<notin> set (own_keys hidden)) rest"
    using assms(4) by (intro filter_cong) (auto simp: langsToHide_def)
  with useLanguages_hide_before_truncate[OF assms(1-3)] show ?thesis by simp
qed

text \<open>
  Claim C5 says that when the largest language is in the hide list, the selection is the
  top \<open>N\<close> of the remaining languages, the next language being promoted. The lookup table
  is a plain object, so \<open>langsToHide["constructor"]\<close> reads the inherited
  \<open>Object.prototype.constructor\<close>, which is truthy: with \<open>Go\<close> hidden, the remaining
  language named \<open>constructor\<close> is removed as well and the selection is empty.
\<close>

theorem useLanguages_drops_inherited_name:
  "sort_by (\<lambda>a b. jssub (Lang_size b) (Lang_size a)) (Object_values with_constructor)
     = [\<lparr> Lang_name = ''Go'', Lang_color = Some ''#00ADD8'', Lang_size = Fin 3 \<rparr>,
        \<lparr> Lang_name = ''constructor'', Lang_color = Some ''#888888'', Lang_size = Fin 2 \<rparr>]
   \<and> lowercaseTrim ''Go'' = lowercaseTrim ''go''
   \<and> lowercaseTrim ''constructor'' \<noteq> lowercaseTrim ''go''
   \<and> langs (useLanguages with_constructor (Some [''go'']) ''5'') = []"
  by code_simp

end
